theory Spec2Isabelle
  imports Main
begin

section \<open>The two bridging headers\<close>

text \<open>
  The repository consists of two header files. Each is embedded as the list of its
  lines, verbatim and in file order (the macOS file ends with an empty line, the tvOS
  file ends right after its last directive).
\<close>

definition FlixorMac_Bridging_Header :: "string list" where
  "FlixorMac_Bridging_Header =
    [''//'',
     ''//  FlixorMac-Bridging-Header.h'',
     ''//  FlixorMac'',
     ''//'',
     ''//  Bridging header for MPV integration'',
     ''//'',
     '''',
     ''#ifndef FlixorMac_Bridging_Header_h'',
     ''#define FlixorMac_Bridging_Header_h'',
     '''',
     ''// MPV Headers'',
     ''#import <mpv/client.h>'',
     ''#import <mpv/render.h>'',
     ''#import <mpv/render_gl.h>'',
     ''#import <mpv/stream_cb.h>'',
     '''',
     ''#endif /* FlixorMac_Bridging_Header_h */'',
     '''']"

definition FlixorTV_Bridging_Header :: "string list" where
  "FlixorTV_Bridging_Header =
    [''//'',
     ''//  FlixorTV-Bridging-Header.h'',
     ''//  FlixorTV'',
     ''//'',
     ''//  Bridging header for MPV integration'',
     ''//'',
     '''',
     ''#ifndef FlixorTV_Bridging_Header_h'',
     ''#define FlixorTV_Bridging_Header_h'',
     '''',
     ''// MPV Headers'',
     ''#import <mpv/client.h>'',
     ''#import <mpv/render.h>'',
     ''#import <mpv/render_gl.h>'',
     ''#import <mpv/stream_cb.h>'',
     '''',
     ''// Metal/MetalKit for rendering'',
     ''#import <Metal/Metal.h>'',
     ''#import <MetalKit/MetalKit.h>'',
     '''',
     ''#endif /* FlixorTV_Bridging_Header_h */'']"

datatype header = FlixorMac | FlixorTV

fun source :: "header \<Rightarrow> string list" where
  "source FlixorMac = FlixorMac_Bridging_Header"
| "source FlixorTV = FlixorTV_Bridging_Header"

section \<open>Reading one line\<close>

text \<open>
  What the files mean is what the preprocessor does with them. The fragment of the
  preprocessor that the two files use is modelled: line comments, block comments
  closed on their own line, \<open>#ifndef\<close>, \<open>#define\<close>, \<open>#import\<close> and \<open>#endif\<close>.
  Every other line that has tokens is either C code (\<open>Code\<close>: a declaration, a
  definition, a statement) or a directive outside the fragment (\<open>Malformed\<close>).
\<close>

datatype directive =
    Blank
  | Comment
  | Ifndef string
  | Define string string
  | Import string
  | Endif
  | Code string
  | Malformed string

definition is_space :: "char \<Rightarrow> bool" where
  "is_space c = (c = CHR '' '' \<or> c = CHR 0x09)"

definition is_digit :: "char \<Rightarrow> bool" where
  "is_digit c = (c \<in> set ''0123456789'')"

definition is_ident_char :: "char \<Rightarrow> bool" where
  "is_ident_char c =
     (c \<in> set ''abcdefghijklmnopqrstuvwxyzABCDEFGHIJKLMNOPQRSTUVWXYZ_'' \<or> is_digit c)"

definition skip_ws :: "string \<Rightarrow> string" where
  "skip_ws cs = dropWhile is_space cs"

definition trim_right :: "string \<Rightarrow> string" where
  "trim_right cs = rev (skip_ws (rev cs))"

text \<open>Comments are replaced before directives are read: a line comment ends the
  line, a block comment becomes one space. The flag says whether the text starts
  inside a block comment; the result is \<open>None\<close> when a block comment is still open
  at the end of the line.\<close>

fun strip_comments :: "bool \<Rightarrow> string \<Rightarrow> string option" where
  "strip_comments False [] = Some []"
| "strip_comments True [] = None"
| "strip_comments False [c] = Some [c]"
| "strip_comments True [c] = None"
| "strip_comments False (c # d # cs) =
     (if c = CHR ''/'' \<and> d = CHR ''/'' then Some []
      else if c = CHR ''/'' \<and> d = CHR ''*'' then
        map_option ((#) CHR '' '') (strip_comments True cs)
      else map_option ((#) c) (strip_comments False (d # cs)))"
| "strip_comments True (c # d # cs) =
     (if c = CHR ''*'' \<and> d = CHR ''/'' then strip_comments False cs
      else strip_comments True (d # cs))"

text \<open>An identifier at the head of the text, and what follows it.\<close>

definition ident :: "string \<Rightarrow> string \<times> string" where
  "ident cs =
     (if cs \<noteq> [] \<and> is_digit (hd cs) then ([], cs)
      else (takeWhile is_ident_char cs, dropWhile is_ident_char cs))"

text \<open>A header name \<open><path>\<close> or \<open>"path"\<close> at the head of the text, and what
  follows it.\<close>

definition header_name :: "string \<Rightarrow> (string \<times> string) option" where
  "header_name cs =
     (case cs of
        [] \<Rightarrow> None
      | c # r \<Rightarrow>
          (let close = (if c = CHR ''<'' then CHR ''>'' else CHR 0x22);
               p = takeWhile (\<lambda>x. x \<noteq> close) r;
               q = dropWhile (\<lambda>x. x \<noteq> close) r
           in if (c = CHR ''<'' \<or> c = CHR 0x22) \<and> p \<noteq> [] \<and> q \<noteq> []
              then Some (p, tl q) else None))"

definition read_directive :: "string \<Rightarrow> directive" where
  "read_directive t =
     (let (kw, r) = ident (skip_ws t) in
      if kw = ''ifndef'' then
        (let (m, r') = ident (skip_ws r) in
         if m \<noteq> [] \<and> skip_ws r' = [] then Ifndef m else Malformed t)
      else if kw = ''define'' then
        (let (m, r') = ident (skip_ws r) in
         if m \<noteq> [] then Define m (trim_right (skip_ws r')) else Malformed t)
      else if kw = ''import'' then
        (case header_name (skip_ws r) of
           None \<Rightarrow> Malformed t
         | Some (p, r') \<Rightarrow> if skip_ws r' = [] then Import p else Malformed t)
      else if kw = ''endif'' then
        (if skip_ws r = [] then Endif else Malformed t)
      else Malformed t)"

definition classify :: "string \<Rightarrow> directive" where
  "classify l =
     (case strip_comments False l of
        None \<Rightarrow> Malformed l
      | Some u \<Rightarrow>
          (let t = skip_ws u in
           if t = [] then (if skip_ws l = [] then Blank else Comment)
           else if hd t = CHR ''#'' then read_directive (tl t)
           else Code t))"

definition directives :: "header \<Rightarrow> directive list" where
  "directives h = map classify (source h)"

section \<open>Processing a file\<close>

text \<open>
  The state of a translation unit: the macros defined so far with their replacement
  text, the headers imported so far in the order of their first import, and the lines
  of C code handed on to the compiler proper. The record is extensible: its
  extension stands for everything else in the surrounding system.
\<close>

record tu_state =
  macros :: "string \<rightharpoonup> string"
  imported :: "string list"
  emitted :: "string list"

definition fresh :: tu_state where
  "fresh = \<lparr>macros = Map.empty, imported = [], emitted = []\<rparr>"

datatype pp_error =
    Endif_without_if
  | Unterminated_conditional
  | Macro_redefined string
  | Invalid_directive string

text \<open>\<open>#import\<close> brings a header in at most once per translation unit.\<close>

definition import_header :: "string \<Rightarrow> 'a tu_state_scheme \<Rightarrow> 'a tu_state_scheme" where
  "import_header p s =
     s\<lparr>imported := (if p \<in> set (imported s) then imported s else imported s @ [p])\<rparr>"

text \<open>
  The stack holds one flag per open conditional, innermost first; a flag is true when
  the lines of that conditional are being processed, so a conditional opened inside a
  skipped one is skipped whatever its condition.
\<close>

fun active :: "bool list \<Rightarrow> bool" where
  "active [] = True"
| "active (b # st) = b"

fun exec_directive ::
  "directive \<Rightarrow> bool list \<Rightarrow> 'a tu_state_scheme \<Rightarrow> pp_error + (bool list \<times> 'a tu_state_scheme)"
where
  "exec_directive Blank st s = Inr (st, s)"
| "exec_directive Comment st s = Inr (st, s)"
| "exec_directive (Ifndef m) st s = Inr ((active st \<and> macros s m = None) # st, s)"
| "exec_directive Endif [] s = Inl Endif_without_if"
| "exec_directive Endif (b # st) s = Inr (st, s)"
| "exec_directive (Define m body) st s =
     (if active st then
        (case macros s m of
           None \<Rightarrow> Inr (st, s\<lparr>macros := (macros s)(m \<mapsto> body)\<rparr>)
         | Some old \<Rightarrow> if old = body then Inr (st, s) else Inl (Macro_redefined m))
      else Inr (st, s))"
| "exec_directive (Import p) st s =
     (if active st then Inr (st, import_header p s) else Inr (st, s))"
| "exec_directive (Code c) st s =
     (if active st then Inr (st, s\<lparr>emitted := emitted s @ [c]\<rparr>) else Inr (st, s))"
| "exec_directive (Malformed t) st s =
     (if active st then Inl (Invalid_directive t) else Inr (st, s))"

fun exec_all ::
  "directive list \<Rightarrow> bool list \<Rightarrow> 'a tu_state_scheme \<Rightarrow> pp_error + (bool list \<times> 'a tu_state_scheme)"
where
  "exec_all [] st s = Inr (st, s)"
| "exec_all (d # ds) st s =
     (case exec_directive d st s of
        Inl e \<Rightarrow> Inl e
      | Inr (st', s') \<Rightarrow> exec_all ds st' s')"

text \<open>A file is processed from its first line with no conditional open, and must
  close every conditional it opens.\<close>

definition include_header :: "header \<Rightarrow> 'a tu_state_scheme \<Rightarrow> pp_error + 'a tu_state_scheme" where
  "include_header h s =
     (case exec_all (directives h) [] s of
        Inl e \<Rightarrow> Inl e
      | Inr (st, s') \<Rightarrow> if st = [] then Inr s' else Inl Unterminated_conditional)"

text \<open>A translation unit that includes a sequence of the headers, stopping at the
  first error.\<close>

fun include_all :: "header list \<Rightarrow> 'a tu_state_scheme \<Rightarrow> pp_error + 'a tu_state_scheme" where
  "include_all [] s = Inr s"
| "include_all (h # hs) s =
     (case include_header h s of
        Inl e \<Rightarrow> Inl e
      | Inr s' \<Rightarrow> include_all hs s')"

section \<open>What a file contains\<close>

fun directive_import :: "directive \<Rightarrow> string list" where
  "directive_import (Import p) = [p]"
| "directive_import d = []"

definition imports_of :: "header \<Rightarrow> string list" where
  "imports_of h = concat (map directive_import (directives h))"

fun directive_define :: "directive \<Rightarrow> string list" where
  "directive_define (Define m body) = [m]"
| "directive_define d = []"

definition defines_of :: "header \<Rightarrow> string list" where
  "defines_of h = concat (map directive_define (directives h))"

fun directive_ifndef :: "directive \<Rightarrow> string list" where
  "directive_ifndef (Ifndef m) = [m]"
| "directive_ifndef d = []"

definition ifndefs_of :: "header \<Rightarrow> string list" where
  "ifndefs_of h = concat (map directive_ifndef (directives h))"

definition guard :: "header \<Rightarrow> string" where
  "guard h = (case h of FlixorMac \<Rightarrow> ''FlixorMac_Bridging_Header_h''
                       | FlixorTV \<Rightarrow> ''FlixorTV_Bridging_Header_h'')"

definition is_mpv :: "string \<Rightarrow> bool" where
  "is_mpv p = (take 4 p = ''mpv/'')"

definition mpv_imports :: "header \<Rightarrow> string list" where
  "mpv_imports h = filter is_mpv (imports_of h)"

fun directive_code :: "directive \<Rightarrow> string list" where
  "directive_code (Code c) = [c]"
| "directive_code d = []"

definition code_of :: "header \<Rightarrow> string list" where
  "code_of h = concat (map directive_code (directives h))"

text \<open>A line that carries nothing but an import, a comment, or a part of the include
  guard of the header \<open>h\<close> (a blank line carries nothing at all).\<close>

fun import_or_guard_line :: "header \<Rightarrow> directive \<Rightarrow> bool" where
  "import_or_guard_line h Blank = True"
| "import_or_guard_line h Comment = True"
| "import_or_guard_line h (Import p) = True"
| "import_or_guard_line h (Ifndef m) = (m = guard h)"
| "import_or_guard_line h (Define m body) = (m = guard h \<and> body = [])"
| "import_or_guard_line h Endif = True"
| "import_or_guard_line h (Code c) = False"
| "import_or_guard_line h (Malformed t) = False"

text \<open>A header is visible to application code after a bridging header has been
  processed on its own, as the first file of a translation unit.\<close>

definition visible_after :: "header \<Rightarrow> string \<Rightarrow> bool" where
  "visible_after h p =
     (case include_header h fresh of
        Inl e \<Rightarrow> False
      | Inr s \<Rightarrow> p \<in> set (imported s))"

section \<open>The lines of the two files\<close>

lemma directives_FlixorMac:
  "directives FlixorMac =
     [Comment, Comment, Comment, Comment, Comment, Comment, Blank,
      Ifndef ''FlixorMac_Bridging_Header_h'',
      Define ''FlixorMac_Bridging_Header_h'' [],
      Blank, Comment,
      Import ''mpv/client.h'', Import ''mpv/render.h'',
      Import ''mpv/render_gl.h'', Import ''mpv/stream_cb.h'',
      Blank, Endif, Blank]"
  by code_simp

lemma directives_FlixorTV:
  "directives FlixorTV =
     [Comment, Comment, Comment, Comment, Comment, Comment, Blank,
      Ifndef ''FlixorTV_Bridging_Header_h'',
      Define ''FlixorTV_Bridging_Header_h'' [],
      Blank, Comment,
      Import ''mpv/client.h'', Import ''mpv/render.h'',
      Import ''mpv/render_gl.h'', Import ''mpv/stream_cb.h'',
      Blank, Comment,
      Import ''Metal/Metal.h'', Import ''MetalKit/MetalKit.h'',
      Blank, Endif]"
  by code_simp

lemma imports_of_FlixorMac:
  "imports_of FlixorMac =
     [''mpv/client.h'', ''mpv/render.h'', ''mpv/render_gl.h'', ''mpv/stream_cb.h'']"
  by (simp add: imports_of_def directives_FlixorMac)

lemma imports_of_FlixorTV:
  "imports_of FlixorTV =
     [''mpv/client.h'', ''mpv/render.h'', ''mpv/render_gl.h'', ''mpv/stream_cb.h'',
      ''Metal/Metal.h'', ''MetalKit/MetalKit.h'']"
  by (simp add: imports_of_def directives_FlixorTV)

lemma guard_distinct: "h \<noteq> h' \<Longrightarrow> guard h \<noteq> guard h'"
  by (cases h; cases h') (simp_all add: guard_def)

section \<open>One inclusion\<close>

text \<open>With the guard macro defined, the whole body is skipped.\<close>

lemma include_header_skipped:
  "macros s (guard h) \<noteq> None \<Longrightarrow> include_header h s = Inr s"
  by (cases h)
     (auto simp: include_header_def guard_def directives_FlixorMac directives_FlixorTV)

text \<open>With the guard macro undefined, the guard is defined with an empty body and the
  imports are made in file order.\<close>

lemma include_header_first:
  "macros s (guard h) = None \<Longrightarrow>
   include_header h s =
     Inr (fold import_header (imports_of h) (s\<lparr>macros := (macros s)(guard h \<mapsto> [])\<rparr>))"
  by (cases h)
     (simp_all add: include_header_def guard_def directives_FlixorMac directives_FlixorTV
        imports_of_FlixorMac imports_of_FlixorTV)

lemma macros_fold_import: "macros (fold import_header ps s) = macros s"
  by (induction ps arbitrary: s) (simp_all add: import_header_def)

lemma emitted_fold_import: "emitted (fold import_header ps s) = emitted s"
  by (induction ps arbitrary: s) (simp_all add: import_header_def)

lemma more_fold_import: "tu_state.more (fold import_header ps s) = tu_state.more s"
  by (induction ps arbitrary: s) (simp_all add: import_header_def)

lemma set_imported_fold_import:
  "set (imported (fold import_header ps s)) = set (imported s) \<union> set ps"
  by (induction ps arbitrary: s) (auto simp: import_header_def)

lemma include_header_total: "\<exists>s'. include_header h s = Inr s'"
  by (cases "macros s (guard h)") (simp_all add: include_header_first include_header_skipped)

lemma include_header_emitted: "include_header h s = Inr s' \<Longrightarrow> emitted s' = emitted s"
  by (cases "macros s (guard h)")
     (auto simp: include_header_first include_header_skipped emitted_fold_import)

lemma include_header_more:
  "include_header h s = Inr s' \<Longrightarrow> tu_state.more s' = tu_state.more s"
  by (cases "macros s (guard h)")
     (auto simp: include_header_first include_header_skipped more_fold_import)

lemma include_header_macros:
  "include_header h s = Inr s' \<Longrightarrow>
   macros s' = (if macros s (guard h) = None then (macros s)(guard h \<mapsto> []) else macros s)"
  by (cases "macros s (guard h)")
     (auto simp: include_header_first include_header_skipped macros_fold_import)

lemma include_header_imported:
  "include_header h s = Inr s' \<Longrightarrow>
   set (imported s') =
     (if macros s (guard h) = None then set (imported s) \<union> set (imports_of h)
      else set (imported s))"
  by (cases "macros s (guard h)")
     (auto simp: include_header_first include_header_skipped set_imported_fold_import)

lemma include_header_guard_defined:
  "include_header h s = Inr s' \<Longrightarrow> macros s' (guard h) \<noteq> None"
  by (auto dest!: include_header_macros)

section \<open>Sequences of inclusions\<close>

lemma include_all_append:
  "include_all (hs @ hs') s =
     (case include_all hs s of Inl e \<Rightarrow> Inl e | Inr s' \<Rightarrow> include_all hs' s')"
  by (induction hs arbitrary: s) (simp_all split: sum.splits)

lemma include_all_total: "\<exists>s'. include_all hs s = Inr s'"
proof (induction hs arbitrary: s)
  case Nil
  show ?case by simp
next
  case (Cons h hs)
  obtain t where t: "include_header h s = Inr t"
    using include_header_total by blast
  from Cons.IH [of t] t show ?case by simp
qed

lemma include_all_emitted: "include_all hs s = Inr s' \<Longrightarrow> emitted s' = emitted s"
proof (induction hs arbitrary: s)
  case Nil
  then show ?case by simp
next
  case (Cons h hs)
  obtain t where t: "include_header h s = Inr t"
    using include_header_total by blast
  with Cons.prems have "include_all hs t = Inr s'" by simp
  then have "emitted s' = emitted t" by (rule Cons.IH)
  with include_header_emitted [OF t] show ?case by simp
qed

lemma include_all_repeat:
  "macros s (guard h) \<noteq> None \<Longrightarrow> include_all (replicate n h) s = Inr s"
  by (induction n) (simp_all add: include_header_skipped)

text \<open>After a sequence of inclusions, the macros that have changed are the guards of
  the headers included that were undefined before; each is now defined, with an empty
  body.\<close>

lemma include_all_macros:
  "include_all hs s = Inr s' \<Longrightarrow>
   macros s' m =
     (if macros s m = None \<and> m \<in> guard ` set hs then Some [] else macros s m)"
proof (induction hs arbitrary: s)
  case Nil
  then show ?case by simp
next
  case (Cons h hs)
  obtain t where t: "include_header h s = Inr t"
    using include_header_total by blast
  with Cons.prems have "include_all hs t = Inr s'" by simp
  then have step: "macros s' m =
      (if macros t m = None \<and> m \<in> guard ` set hs then Some [] else macros t m)"
    by (rule Cons.IH)
  show ?case
    unfolding step include_header_macros [OF t] by auto
qed

lemma ifndefs_of_guard: "ifndefs_of h = [guard h]"
  by (cases h)
     (simp_all add: ifndefs_of_def guard_def directives_FlixorMac directives_FlixorTV)

lemma include_header_other_guard:
  "h \<noteq> k \<Longrightarrow> include_header h s = Inr t \<Longrightarrow> macros t (guard k) = macros s (guard k)"
  by (auto dest!: include_header_macros dest: guard_distinct)

text \<open>
  The invariant of a translation unit: a guard macro is defined only once the imports
  of its header have been made. It holds of every state in which neither guard is
  defined, and every inclusion keeps it.
\<close>

lemma include_header_keeps_guarded:
  assumes inv: "\<And>k. macros s (guard k) \<noteq> None \<Longrightarrow> set (imports_of k) \<subseteq> set (imported s)"
    and run: "include_header h s = Inr s'"
    and def: "macros s' (guard k) \<noteq> None"
  shows "set (imports_of k) \<subseteq> set (imported s')"
proof (cases "macros s (guard h)")
  case (Some b)
  then have "s' = s" using run by (simp add: include_header_skipped)
  with inv def show ?thesis by simp
next
  case None
  note m = include_header_macros [OF run] and i = include_header_imported [OF run]
  show ?thesis
  proof (cases "k = h")
    case True
    with None i show ?thesis by simp
  next
    case False
    then have "guard k \<noteq> guard h" by (rule guard_distinct)
    with None m def have "macros s (guard k) \<noteq> None" by simp
    then have "set (imports_of k) \<subseteq> set (imported s)" by (rule inv)
    with None i show ?thesis by auto
  qed
qed

lemma include_all_imported:
  assumes "\<And>k. macros s (guard k) \<noteq> None \<Longrightarrow> set (imports_of k) \<subseteq> set (imported s)"
    and "include_all hs s = Inr s'"
  shows "set (imported s') = set (imported s) \<union> (\<Union>h\<in>set hs. set (imports_of h))"
  using assms
proof (induction hs arbitrary: s)
  case Nil
  then show ?case by simp
next
  case (Cons h hs)
  obtain t where t: "include_header h s = Inr t"
    using include_header_total by blast
  with Cons.prems(2) have rest: "include_all hs t = Inr s'" by simp
  have inv_t: "\<And>k. macros t (guard k) \<noteq> None \<Longrightarrow> set (imports_of k) \<subseteq> set (imported t)"
    using include_header_keeps_guarded [OF Cons.prems(1) t] by blast
  have step: "set (imported s') = set (imported t) \<union> (\<Union>h\<in>set hs. set (imports_of h))"
    using Cons.IH [OF inv_t rest] .
  show ?case
  proof (cases "macros s (guard h)")
    case None
    with include_header_imported [OF t] step show ?thesis by auto
  next
    case (Some b)
    then have "set (imports_of h) \<subseteq> set (imported s)" using Cons.prems(1) by simp
    moreover from Some include_header_imported [OF t] have "set (imported t) = set (imported s)"
      by simp
    ultimately show ?thesis using step by auto
  qed
qed

section \<open>The claims\<close>

lemma visible_after_iff: "visible_after h p = (p \<in> set (imports_of h))"
proof -
  have "macros fresh (guard h) = None" by (simp add: fresh_def)
  then show ?thesis
    by (simp add: visible_after_def include_header_first set_imported_fold_import fresh_def)
qed

text \<open>
  Claim C1, as stated, asks that processing either bridging header makes Metal and
  MetalKit visible. The macOS header imports neither: after it has been processed as
  the first file of a translation unit, neither graphics header is visible.
\<close>

theorem FlixorMac_imports_no_Metal:
  "\<not> visible_after FlixorMac ''Metal/Metal.h'' \<and>
   \<not> visible_after FlixorMac ''MetalKit/MetalKit.h'' \<and>
   ''Metal/Metal.h'' \<notin> set (imports_of FlixorMac) \<and>
   ''MetalKit/MetalKit.h'' \<notin> set (imports_of FlixorMac)"
  by (simp add: visible_after_iff imports_of_FlixorMac)

text \<open>
  Claim C1, amended: processing the tvOS bridging header makes the four mpv headers
  and both Metal and MetalKit visible; processing the macOS bridging header makes the
  four mpv headers visible and neither Metal nor MetalKit.
\<close>

theorem bridging_header_visibility:
  "(visible_after FlixorTV ''mpv/client.h'' \<and> visible_after FlixorTV ''mpv/render.h'' \<and>
    visible_after FlixorTV ''mpv/render_gl.h'' \<and> visible_after FlixorTV ''mpv/stream_cb.h'' \<and>
    visible_after FlixorTV ''Metal/Metal.h'' \<and> visible_after FlixorTV ''MetalKit/MetalKit.h'') \<and>
   (visible_after FlixorMac ''mpv/client.h'' \<and> visible_after FlixorMac ''mpv/render.h'' \<and>
    visible_after FlixorMac ''mpv/render_gl.h'' \<and> visible_after FlixorMac ''mpv/stream_cb.h'' \<and>
    \<not> visible_after FlixorMac ''Metal/Metal.h'' \<and>
    \<not> visible_after FlixorMac ''MetalKit/MetalKit.h'')"
  by (simp add: visible_after_iff imports_of_FlixorMac imports_of_FlixorTV)

text \<open>
  Claim C2: in each bridging header the imported mpv headers are exactly client,
  render, render_gl and stream_cb, each once; no other mpv header is imported and none
  of the four is missing.
\<close>

theorem mpv_imports_exact:
  "mpv_imports h =
     [''mpv/client.h'', ''mpv/render.h'', ''mpv/render_gl.h'', ''mpv/stream_cb.h'']"
  by (cases h)
     (simp_all add: mpv_imports_def is_mpv_def imports_of_FlixorMac imports_of_FlixorTV)

text \<open>
  Claim C3: every line of either bridging header is blank, a comment, a header
  import, or a line of the header's own include guard; the only macro either file
  defines is its guard, with an empty body; no line is C code or any other directive.
\<close>

theorem only_imports_and_guard:
  "list_all (import_or_guard_line h) (directives h) \<and>
   defines_of h = [guard h] \<and>
   code_of h = []"
  by (cases h)
     (simp_all add: directives_FlixorMac directives_FlixorTV guard_def defines_of_def
        code_of_def)

text \<open>
  Claim C4: the bridging headers define no component of their own. No line of either
  file is C code (a declaration, a definition, a statement), and whatever sequence of
  the two headers a translation unit includes, from whatever state, the code handed on
  to the compiler is what it was before: processing adds no entity and no behaviour.
\<close>

theorem headers_define_no_code:
  "code_of h = [] \<and> map_sum id emitted (include_all hs s) = Inr (emitted s)"
proof
  show "code_of h = []"
    by (cases h) (simp_all add: code_of_def directives_FlixorMac directives_FlixorTV)
next
  obtain s' where s': "include_all hs s = Inr s'"
    using include_all_total by blast
  then have "emitted s' = emitted s" by (rule include_all_emitted)
  with s' show "map_sum id emitted (include_all hs s) = Inr (emitted s)" by simp
qed

text \<open>
  Claim C5: no error originates from the bridging headers. Whatever sequence of the
  two headers is processed (any order, any multiplicity), from whatever state of the
  translation unit, processing ends without error: no \<open>#endif\<close> without its
  \<open>#ifndef\<close>, no conditional left open, no macro redefined, no invalid directive.
\<close>

theorem headers_raise_no_error: "\<not> isl (include_all hs s)"
proof -
  obtain s' where "include_all hs s = Inr s'"
    using include_all_total by blast
  then show ?thesis by simp
qed

text \<open>
  Claim C6: processing either bridging header leaves everything unchanged apart from
  header visibility. The code handed on to the compiler, every macro other than the
  header's own include guard, and the rest of the surrounding system (the extension of
  the state record) are after processing what they were before; only the list of
  imported headers and the guard that records the inclusion may differ.
\<close>

theorem include_header_frame:
  "map_sum id (\<lambda>t. (emitted t, tu_state.more t, macros t |` (- {guard h})))
     (include_header h s) =
   Inr (emitted s, tu_state.more s, macros s |` (- {guard h}))"
proof -
  obtain s' where s': "include_header h s = Inr s'"
    using include_header_total by blast
  have "macros s' |` (- {guard h}) = macros s |` (- {guard h})"
    using include_header_macros [OF s'] by (simp add: restrict_complement_singleton_eq)
  with s' include_header_emitted [OF s'] include_header_more [OF s']
  show ?thesis by simp
qed

text \<open>
  Claim C8: inclusion of a bridging header is idempotent. From every state of the
  translation unit, processing the same header twice, or any number of further times,
  ends in exactly the state that processing it once ends in (the same imported headers
  and the same macros): the first inclusion defines the guard, and with the guard
  defined the body is skipped.
\<close>

theorem include_header_idempotent:
  "include_all (replicate (Suc n) h) s = include_header h s"
proof -
  obtain s' where s': "include_header h s = Inr s'"
    using include_header_total by blast
  then have "macros s' (guard h) \<noteq> None" by (rule include_header_guard_defined)
  then have "include_all (replicate n h) s' = Inr s'" by (rule include_all_repeat)
  with s' show ?thesis by simp
qed

text \<open>
  Claim C9: the two bridging headers agree on mpv and differ only by the graphics
  imports. Both import client, render, render_gl and stream_cb, in this order; the
  import list of the tvOS header is that of the macOS header followed by Metal and
  MetalKit, so it is a strict superset and the difference is exactly these two.
\<close>

theorem FlixorTV_extends_FlixorMac:
  "mpv_imports FlixorMac =
     [''mpv/client.h'', ''mpv/render.h'', ''mpv/render_gl.h'', ''mpv/stream_cb.h''] \<and>
   mpv_imports FlixorTV = mpv_imports FlixorMac \<and>
   imports_of FlixorTV = imports_of FlixorMac @ [''Metal/Metal.h'', ''MetalKit/MetalKit.h''] \<and>
   set (imports_of FlixorMac) \<subset> set (imports_of FlixorTV) \<and>
   set (imports_of FlixorTV) - set (imports_of FlixorMac) =
     {''Metal/Metal.h'', ''MetalKit/MetalKit.h''}"
proof -
  let ?mpv = "[''mpv/client.h'', ''mpv/render.h'', ''mpv/render_gl.h'', ''mpv/stream_cb.h'']"
  have mac: "mpv_imports FlixorMac = ?mpv"
    by (simp add: mpv_imports_def is_mpv_def imports_of_FlixorMac)
  have tv: "mpv_imports FlixorTV = ?mpv"
    by (simp add: mpv_imports_def is_mpv_def imports_of_FlixorTV)
  have ext: "imports_of FlixorTV =
      imports_of FlixorMac @ [''Metal/Metal.h'', ''MetalKit/MetalKit.h'']"
    by (simp add: imports_of_FlixorMac imports_of_FlixorTV)
  have metal: "''Metal/Metal.h'' \<notin> set (imports_of FlixorMac)"
    and metalkit: "''MetalKit/MetalKit.h'' \<notin> set (imports_of FlixorMac)"
    by (simp_all add: imports_of_FlixorMac)
  have strict: "set (imports_of FlixorMac) \<subset> set (imports_of FlixorTV)"
  proof
    show "set (imports_of FlixorMac) \<subseteq> set (imports_of FlixorTV)"
      unfolding ext by auto
    have "''Metal/Metal.h'' \<in> set (imports_of FlixorTV)" by (simp add: ext)
    with metal show "set (imports_of FlixorMac) \<noteq> set (imports_of FlixorTV)" by blast
  qed
  have "set (imports_of FlixorTV) - set (imports_of FlixorMac) =
      set [''Metal/Metal.h'', ''MetalKit/MetalKit.h''] - set (imports_of FlixorMac)"
    unfolding ext by auto
  also have "\<dots> = {''Metal/Metal.h'', ''MetalKit/MetalKit.h''}"
    using metal metalkit by auto
  finally show ?thesis using mac tv ext strict by simp
qed

text \<open>
  Claim C10, as stated, speaks of every translation unit that processes both headers.
  A translation unit that starts with the tvOS guard macro already defined (as a
  definition on the compiler's command line makes it) processes both headers, in either
  order, and ends with the four mpv headers imported only: the tvOS body is skipped,
  and the imported set is not the union of the two import lists.
\<close>

theorem predefined_guard_skips_body:
  "map_sum id imported
     (include_all [FlixorMac, FlixorTV] (fresh\<lparr>macros := [guard FlixorTV \<mapsto> []]\<rparr>)) =
     Inr [''mpv/client.h'', ''mpv/render.h'', ''mpv/render_gl.h'', ''mpv/stream_cb.h''] \<and>
   map_sum id imported
     (include_all [FlixorTV, FlixorMac] (fresh\<lparr>macros := [guard FlixorTV \<mapsto> []]\<rparr>)) =
     Inr [''mpv/client.h'', ''mpv/render.h'', ''mpv/render_gl.h'', ''mpv/stream_cb.h''] \<and>
   set [''mpv/client.h'', ''mpv/render.h'', ''mpv/render_gl.h'', ''mpv/stream_cb.h''] \<noteq>
     set (imports_of FlixorMac) \<union> set (imports_of FlixorTV)"
proof -
  let ?s = "fresh\<lparr>macros := [guard FlixorTV \<mapsto> []]\<rparr>"
  let ?mpv = "[''mpv/client.h'', ''mpv/render.h'', ''mpv/render_gl.h'', ''mpv/stream_cb.h'']"
  have tv: "include_header FlixorTV t = Inr t" if "macros t (guard FlixorTV) \<noteq> None"
    for t :: tu_state
    using that by (rule include_header_skipped)
  have mac: "include_header FlixorMac ?s =
      Inr (fold import_header (imports_of FlixorMac)
             (?s\<lparr>macros := (macros ?s)(guard FlixorMac \<mapsto> [])\<rparr>))"
    by (rule include_header_first) (simp add: guard_def)
  let ?u = "fold import_header (imports_of FlixorMac)
             (?s\<lparr>macros := (macros ?s)(guard FlixorMac \<mapsto> [])\<rparr>)"
  have u: "imported ?u = ?mpv"
    by (simp add: imports_of_FlixorMac import_header_def fresh_def)
  have "macros ?u (guard FlixorTV) \<noteq> None"
    by (simp add: macros_fold_import)
  then have "include_header FlixorTV ?u = Inr ?u"
    by (rule include_header_skipped)
  then have "include_all [FlixorMac, FlixorTV] ?s = Inr ?u"
    by (simp add: mac)
  with u have first: "map_sum id imported (include_all [FlixorMac, FlixorTV] ?s) = Inr ?mpv"
    by simp
  have "include_all [FlixorTV, FlixorMac] ?s = Inr ?u"
    by (simp add: mac tv)
  with u have second: "map_sum id imported (include_all [FlixorTV, FlixorMac] ?s) = Inr ?mpv"
    by simp
  have "''Metal/Metal.h'' \<in> set (imports_of FlixorMac) \<union> set (imports_of FlixorTV)"
    by (simp add: imports_of_FlixorTV)
  moreover have "''Metal/Metal.h'' \<notin> set ?mpv" by simp
  ultimately have "set ?mpv \<noteq> set (imports_of FlixorMac) \<union> set (imports_of FlixorTV)"
    by blast
  with first second show ?thesis by blast
qed

text \<open>
  Claim C10, amended: the include-guard macros of the two bridging headers are
  distinct (each file tests its own guard and no other macro), and processing one
  header leaves the other header's guard as it was. So every translation unit that
  starts with neither guard defined and processes both headers, in either order and
  any number of times, processes both bodies: both guards end defined, and the
  resulting set of imported headers is the union of the two files' import lists
  (together with what was imported before).
\<close>

theorem both_headers_import_union:
  assumes "macros s (guard FlixorMac) = None"
    and "macros s (guard FlixorTV) = None"
    and "FlixorMac \<in> set hs"
    and "FlixorTV \<in> set hs"
  shows "(ifndefs_of FlixorMac = [guard FlixorMac] \<and> ifndefs_of FlixorTV = [guard FlixorTV] \<and>
          guard FlixorMac \<noteq> guard FlixorTV) \<and>
         (map_sum id (\<lambda>t. macros t (guard FlixorMac)) (include_header FlixorTV s) =
            Inr (macros s (guard FlixorMac)) \<and>
          map_sum id (\<lambda>t. macros t (guard FlixorTV)) (include_header FlixorMac s) =
            Inr (macros s (guard FlixorTV))) \<and>
         map_sum id (\<lambda>t. (set (imported t), macros t)) (include_all hs s) =
           Inr (set (imported s) \<union> set (imports_of FlixorMac) \<union> set (imports_of FlixorTV),
                (macros s)(guard FlixorMac \<mapsto> [], guard FlixorTV \<mapsto> []))"
proof (intro conjI)
  show "ifndefs_of FlixorMac = [guard FlixorMac]" and "ifndefs_of FlixorTV = [guard FlixorTV]"
    by (rule ifndefs_of_guard)+
  show "guard FlixorMac \<noteq> guard FlixorTV" by (simp add: guard_def)
next
  obtain t where t: "include_header FlixorTV s = Inr t"
    using include_header_total by blast
  have "macros t (guard FlixorMac) = macros s (guard FlixorMac)"
    by (rule include_header_other_guard [OF _ t]) simp
  with t show "map_sum id (\<lambda>t. macros t (guard FlixorMac)) (include_header FlixorTV s) =
      Inr (macros s (guard FlixorMac))"
    by simp
next
  obtain t where t: "include_header FlixorMac s = Inr t"
    using include_header_total by blast
  have "macros t (guard FlixorTV) = macros s (guard FlixorTV)"
    by (rule include_header_other_guard [OF _ t]) simp
  with t show "map_sum id (\<lambda>t. macros t (guard FlixorTV)) (include_header FlixorMac s) =
      Inr (macros s (guard FlixorTV))"
    by simp
next
  obtain s' where s': "include_all hs s = Inr s'"
    using include_all_total by blast
  have undefined_guards: "macros s (guard k) = None" for k
    using assms(1,2) by (cases k) simp_all
  have both: "set hs = {FlixorMac, FlixorTV}"
  proof
    show "set hs \<subseteq> {FlixorMac, FlixorTV}"
    proof
      fix k assume "k \<in> set hs"
      show "k \<in> {FlixorMac, FlixorTV}" by (cases k) simp_all
    qed
    show "{FlixorMac, FlixorTV} \<subseteq> set hs" using assms(3,4) by simp
  qed
  have "set (imported s') = set (imported s) \<union> (\<Union>h\<in>set hs. set (imports_of h))"
    by (rule include_all_imported [OF _ s']) (simp add: undefined_guards)
  with both have imp: "set (imported s') =
      set (imported s) \<union> set (imports_of FlixorMac) \<union> set (imports_of FlixorTV)"
    by (simp add: Un_assoc)
  have mac: "macros s' = (macros s)(guard FlixorMac \<mapsto> [], guard FlixorTV \<mapsto> [])"
  proof
    fix m
    show "macros s' m = ((macros s)(guard FlixorMac \<mapsto> [], guard FlixorTV \<mapsto> [])) m"
      unfolding include_all_macros [OF s'] both using assms(1,2) by auto
  qed
  from s' imp mac
  show "map_sum id (\<lambda>t. (set (imported t), macros t)) (include_all hs s) =
      Inr (set (imported s) \<union> set (imports_of FlixorMac) \<union> set (imports_of FlixorTV),
           (macros s)(guard FlixorMac \<mapsto> [], guard FlixorTV \<mapsto> []))"
    by simp
qed

theorem both_headers_import_union_witness:
  "macros fresh (guard FlixorMac) = None \<and> macros fresh (guard FlixorTV) = None \<and>
   FlixorMac \<in> set [FlixorMac, FlixorTV] \<and> FlixorTV \<in> set [FlixorMac, FlixorTV] \<and>
   FlixorMac \<in> set [FlixorTV, FlixorMac] \<and> FlixorTV \<in> set [FlixorTV, FlixorMac] \<and>
   map_sum id (\<lambda>t. (set (imported t), macros t)) (include_all [FlixorMac, FlixorTV] fresh) =
     Inr ({''mpv/client.h'', ''mpv/render.h'', ''mpv/render_gl.h'', ''mpv/stream_cb.h'',
           ''Metal/Metal.h'', ''MetalKit/MetalKit.h''},
          [''FlixorMac_Bridging_Header_h'' \<mapsto> [], ''FlixorTV_Bridging_Header_h'' \<mapsto> []]) \<and>
   map_sum id (\<lambda>t. (set (imported t), macros t)) (include_all [FlixorTV, FlixorMac] fresh) =
     Inr ({''mpv/client.h'', ''mpv/render.h'', ''mpv/render_gl.h'', ''mpv/stream_cb.h'',
           ''Metal/Metal.h'', ''MetalKit/MetalKit.h''},
          [''FlixorMac_Bridging_Header_h'' \<mapsto> [], ''FlixorTV_Bridging_Header_h'' \<mapsto> []])"
proof -
  have mac: "macros fresh (guard FlixorMac) = None"
    and tv: "macros fresh (guard FlixorTV) = None"
    by (simp_all add: fresh_def)
  have imp: "set (imported fresh) \<union> set (imports_of FlixorMac) \<union> set (imports_of FlixorTV) =
      {''mpv/client.h'', ''mpv/render.h'', ''mpv/render_gl.h'', ''mpv/stream_cb.h'',
       ''Metal/Metal.h'', ''MetalKit/MetalKit.h''}"
    by (auto simp: fresh_def imports_of_FlixorMac imports_of_FlixorTV)
  have gs: "(macros fresh)(guard FlixorMac \<mapsto> [], guard FlixorTV \<mapsto> []) =
      [''FlixorMac_Bridging_Header_h'' \<mapsto> [], ''FlixorTV_Bridging_Header_h'' \<mapsto> []]"
    by (simp add: fresh_def guard_def)
  from mac tv
    both_headers_import_union [OF mac tv, of "[FlixorMac, FlixorTV]"]
    both_headers_import_union [OF mac tv, of "[FlixorTV, FlixorMac]"]
  show ?thesis unfolding imp gs by simp
qed

end
